theory Spec2Isabelle
  imports Complex_Main "HOL-Library.AList"
begin

section \<open>Churn prediction: the preprocessing pipeline\<close>

text \<open>
  A shallow embedding of \<^verbatim>\<open>config/settings.py\<close>, \<^verbatim>\<open>src/feature_engineering.py\<close>,
  \<^verbatim>\<open>src/encoders.py\<close> and \<^verbatim>\<open>src/preprocessing.py\<close>.

  Python's \<^verbatim>\<open>int\<close> is \<^typ>\<open>int\<close>. Python's \<^verbatim>\<open>float\<close> (the spec's "decimal
  currency") is the exact rational \<^typ>\<open>rat\<close>: every comparison and quotient below is
  the exact one, and the rounding, overflow, infinities and NaN of IEEE doubles are not
  part of this model. Every \<^verbatim>\<open>raise\<close> of the source is an \<open>Inl\<close> result; logging is
  dropped.
\<close>

subsection \<open>Errors\<close>

datatype error =
    ValidationError "string list"
      \<comment> \<open>\<^verbatim>\<open>ValueError("Donnees invalides: ...")\<close> around pydantic's error: the fields it lists\<close>
  | UnknownField string
      \<comment> \<open>\<^verbatim>\<open>KeyError("Encoder ... non disponible")\<close>\<close>
  | InvalidValue string string
      \<comment> \<open>\<^verbatim>\<open>ValueError\<close> of \<^verbatim>\<open>encode_feature\<close>: feature name and value\<close>
  | EncodingFailed string string
      \<comment> \<open>\<^verbatim>\<open>ValueError("Impossible d'encoder ...")\<close>: the encoder's \<^verbatim>\<open>transform\<close> raised\<close>
  | InvalidArgument string
      \<comment> \<open>\<^verbatim>\<open>ValueError\<close> of a feature-engineering precondition: the argument named\<close>
  | KeyError string
      \<comment> \<open>a failed dictionary subscript\<close>
  | MissingFeature string
      \<comment> \<open>\<^verbatim>\<open>ValueError("Feature manquante: ...")\<close>\<close>
  | InternalError
      \<comment> \<open>\<^verbatim>\<open>ValueError("Features engineered invalides")\<close>\<close>
  | FileNotFound string
      \<comment> \<open>\<^verbatim>\<open>FileNotFoundError("Encoder requis manquant: ...")\<close>\<close>
  | BatchError nat error
      \<comment> \<open>\<^verbatim>\<open>ValueError("Erreur preprocessing client {i}: {e}")\<close>\<close>

subsection \<open>config/settings.py\<close>

definition ENCODER_FILES :: "string list" where
  \<comment> \<open>the keys of the dictionary, in insertion order; the paths are not modelled\<close>
  "ENCODER_FILES = [''Contract'', ''PaymentMethod'', ''InternetService'', ''PaperlessBilling'']"

definition CONTRACT_VALUES :: "string list" where
  "CONTRACT_VALUES = [''Month-to-month'', ''One year'', ''Two year'']"

definition PAYMENT_METHOD_VALUES :: "string list" where
  "PAYMENT_METHOD_VALUES =
     [''Bank transfer (automatic)'', ''Credit card (automatic)'',
      ''Electronic check'', ''Mailed check'']"

definition INTERNET_SERVICE_VALUES :: "string list" where
  "INTERNET_SERVICE_VALUES = [''DSL'', ''Fiber optic'', ''No'']"

definition PAPERLESS_BILLING_VALUES :: "string list" where
  "PAPERLESS_BILLING_VALUES = [''No'', ''Yes'']"

definition TENURE_SEGMENT_MAPPING :: "string \<rightharpoonup> int" where
  "TENURE_SEGMENT_MAPPING =
     map_of [(''Nouveaux_0-6m'', 0), (''Junior_6-12m'', 1),
             (''Moyen_12-24m'', 2), (''Senior_24m+'', 3)]"

definition MODEL_FEATURES :: "string list" where
  "MODEL_FEATURES =
     [''Ratio_MonthlyCharges_tenure'',
      ''Contract'',
      ''tenure'',
      ''MonthlyCharges'',
      ''tenure_segment_encoded'',
      ''TotalCharges'',
      ''is_new_customer'',
      ''PaymentMethod'',
      ''InternetService'',
      ''PaperlessBilling'',
      ''Ratio_TotalCharges_MonthlyCharges*tenure'']"

definition MIN_TENURE :: int where
  "MIN_TENURE = 0"

definition MIN_MONTHLY_CHARGES :: rat where
  "MIN_MONTHLY_CHARGES = 1 / 100"

definition MIN_TOTAL_CHARGES :: rat where
  "MIN_TOTAL_CHARGES = 0"

subsection \<open>src/feature_engineering.py\<close>

text \<open>A dictionary value of type \<^verbatim>\<open>Union[float, int]\<close>.\<close>

datatype number = IntV int | FloatV rat

fun as_float :: "number \<Rightarrow> rat" where
  "as_float (IntV i) = of_int i"
| "as_float (FloatV x) = x"

definition calculate_ratio_monthly_charges_tenure :: "rat \<Rightarrow> int \<Rightarrow> error + rat" where
  "calculate_ratio_monthly_charges_tenure monthly_charges tenure =
     (if monthly_charges \<le> 0 then Inl (InvalidArgument ''MonthlyCharges'')
      else if tenure < 0 then Inl (InvalidArgument ''Tenure'')
      else Inr (monthly_charges / of_int (tenure + 1)))"

definition calculate_ratio_total_monthly_tenure :: "rat \<Rightarrow> rat \<Rightarrow> int \<Rightarrow> error + rat" where
  "calculate_ratio_total_monthly_tenure total_charges monthly_charges tenure =
     (if total_charges < 0 then Inl (InvalidArgument ''TotalCharges'')
      else if monthly_charges \<le> 0 then Inl (InvalidArgument ''MonthlyCharges'')
      else if tenure < 0 then Inl (InvalidArgument ''Tenure'')
      else if tenure = 0 then Inr 1
      else Inr (total_charges / (monthly_charges * of_int tenure)))"

definition calculate_tenure_segment_encoded :: "int \<Rightarrow> error + int" where
  "calculate_tenure_segment_encoded tenure =
     (if tenure < 0 then Inl (InvalidArgument ''Tenure'')
      else
        let segment =
              (if tenure \<le> 6 then ''Nouveaux_0-6m''
               else if tenure \<le> 12 then ''Junior_6-12m''
               else if tenure \<le> 24 then ''Moyen_12-24m''
               else ''Senior_24m+'')
        in (case TENURE_SEGMENT_MAPPING segment of
              None \<Rightarrow> Inl (KeyError segment)
            | Some encoded_segment \<Rightarrow> Inr encoded_segment))"

definition calculate_is_new_customer :: "int \<Rightarrow> error + int" where
  "calculate_is_new_customer tenure =
     (if tenure < 0 then Inl (InvalidArgument ''Tenure'')
      else Inr (if tenure \<le> 6 then 1 else 0))"

definition compute_all_engineered_features ::
  "int \<Rightarrow> rat \<Rightarrow> rat \<Rightarrow> error + (string \<rightharpoonup> number)" where
  "compute_all_engineered_features tenure monthly_charges total_charges =
     (if tenure < 0 then Inl (InvalidArgument ''tenure'')
      else if monthly_charges \<le> 0 then Inl (InvalidArgument ''monthly_charges'')
      else if total_charges < 0 then Inl (InvalidArgument ''total_charges'')
      else
        case calculate_ratio_monthly_charges_tenure monthly_charges tenure of
          Inl e \<Rightarrow> Inl e
        | Inr r1 \<Rightarrow>
        (case calculate_tenure_segment_encoded tenure of
          Inl e \<Rightarrow> Inl e
        | Inr seg \<Rightarrow>
        (case calculate_is_new_customer tenure of
          Inl e \<Rightarrow> Inl e
        | Inr new \<Rightarrow>
        (case calculate_ratio_total_monthly_tenure total_charges monthly_charges tenure of
          Inl e \<Rightarrow> Inl e
        | Inr r2 \<Rightarrow>
            Inr [''Ratio_MonthlyCharges_tenure'' \<mapsto> FloatV r1,
                 ''tenure_segment_encoded'' \<mapsto> IntV seg,
                 ''is_new_customer'' \<mapsto> IntV new,
                 ''Ratio_TotalCharges_MonthlyCharges*tenure'' \<mapsto> FloatV r2]))))"

definition required_features :: "string list" where
  "required_features =
     [''Ratio_MonthlyCharges_tenure'',
      ''tenure_segment_encoded'',
      ''is_new_customer'',
      ''Ratio_TotalCharges_MonthlyCharges*tenure'']"

text \<open>The presence loop: the first required feature that is not a key, if any.\<close>

fun first_missing :: "(string \<rightharpoonup> number) \<Rightarrow> string list \<Rightarrow> string option" where
  "first_missing features [] = None"
| "first_missing features (feature # rest) =
     (case features feature of
        None \<Rightarrow> Some feature
      | Some _ \<Rightarrow> first_missing features rest)"

definition validate_engineered_features :: "(string \<rightharpoonup> number) \<Rightarrow> bool" where
  "validate_engineered_features features =
     (case first_missing features required_features of
        Some _ \<Rightarrow> False
      | None \<Rightarrow>
         (case (features ''Ratio_MonthlyCharges_tenure'',
                features ''tenure_segment_encoded'',
                features ''is_new_customer'',
                features ''Ratio_TotalCharges_MonthlyCharges*tenure'') of
            (Some r1, Some seg, Some new, Some r2) \<Rightarrow>
               as_float r1 > 0 \<and>
               as_float seg \<in> set [0, 1, 2, 3] \<and>
               as_float new \<in> set [0, 1] \<and>
               as_float r2 \<ge> 0
          | _ \<Rightarrow> False))"

subsection \<open>src/encoders.py\<close>

text \<open>
  A fitted label encoder, as \<^verbatim>\<open>encoder.transform([v])[0]\<close> uses it: the code of a
  label, or \<open>None\<close> where \<^verbatim>\<open>transform\<close> raises for a label it was not fitted on. The
  encoders are unpickled from files that are not part of the repository, so the files
  are a parameter: a map from the feature name to the encoder stored for it.
\<close>

type_synonym label_encoder = "string \<rightharpoonup> int"

record EncoderManager =
  encoders :: "(string \<times> label_encoder) list"
    \<comment> \<open>a dictionary in insertion order, which \<^verbatim>\<open>encode_all_features\<close> iterates\<close>
  feature_mappings :: "string \<rightharpoonup> string list"

fun load_encoders ::
  "(string \<rightharpoonup> label_encoder) \<Rightarrow> string list \<Rightarrow> (string \<times> label_encoder) list
     \<Rightarrow> error + (string \<times> label_encoder) list" where
  "load_encoders files [] encs = Inr encs"
| "load_encoders files (feature_name # rest) encs =
     (case files feature_name of
        None \<Rightarrow> Inl (FileNotFound feature_name)
      | Some encoder \<Rightarrow> load_encoders files rest (AList.update feature_name encoder encs))"

definition EncoderManager_init :: "(string \<rightharpoonup> label_encoder) \<Rightarrow> error + EncoderManager" where
  "EncoderManager_init files =
     (case load_encoders files ENCODER_FILES [] of
        Inl e \<Rightarrow> Inl e
      | Inr encs \<Rightarrow>
          Inr \<lparr>encoders = encs,
               feature_mappings =
                 map_of [(''Contract'', CONTRACT_VALUES),
                         (''PaymentMethod'', PAYMENT_METHOD_VALUES),
                         (''InternetService'', INTERNET_SERVICE_VALUES),
                         (''PaperlessBilling'', PAPERLESS_BILLING_VALUES)]\<rparr>)"

definition encode_feature :: "EncoderManager \<Rightarrow> string \<Rightarrow> string \<Rightarrow> error + int" where
  "encode_feature self feature_name v =
     (case map_of (encoders self) feature_name of
        None \<Rightarrow> Inl (UnknownField feature_name)
      | Some encoder \<Rightarrow>
         (case feature_mappings self feature_name of
            None \<Rightarrow> Inl (KeyError feature_name)
          | Some valid_values \<Rightarrow>
              if v \<notin> set valid_values then Inl (InvalidValue feature_name v)
              else
                (case encoder v of
                   None \<Rightarrow> Inl (EncodingFailed feature_name v)
                 | Some encoded_value \<Rightarrow> Inr encoded_value)))"

text \<open>The loop of \<^verbatim>\<open>encode_all_features\<close> over \<^verbatim>\<open>self.encoders.keys()\<close>.\<close>

fun encode_all_loop ::
  "EncoderManager \<Rightarrow> (string \<rightharpoonup> string) \<Rightarrow> string list \<Rightarrow> (string \<rightharpoonup> int)
     \<Rightarrow> error + (string \<rightharpoonup> int)" where
  "encode_all_loop self data [] encoded_data = Inr encoded_data"
| "encode_all_loop self data (feature_name # rest) encoded_data =
     (case data feature_name of
        None \<Rightarrow> encode_all_loop self data rest encoded_data
      | Some v \<Rightarrow>
         (case encode_feature self feature_name v of
            Inl e \<Rightarrow> Inl e
          | Inr c \<Rightarrow> encode_all_loop self data rest (encoded_data(feature_name \<mapsto> c))))"

definition encode_all_features ::
  "EncoderManager \<Rightarrow> (string \<rightharpoonup> string) \<Rightarrow> error + (string \<rightharpoonup> int)" where
  "encode_all_features self data =
     encode_all_loop self data (map fst (encoders self)) Map.empty"

subsection \<open>src/preprocessing.py\<close>

text \<open>
  The pydantic model. A raw \<^verbatim>\<open>client_data\<close> dictionary is taken with its seven keys
  present and of the declared types, so it is a value of the same record; what pydantic
  does with a missing key or a value of another type is not modelled.
\<close>

record ClientInput =
  contract :: string
  tenure :: int
  monthly_charges :: rat
  total_charges :: rat
  payment_method :: string
  internet_service :: string
  paperless_billing :: string

text \<open>
  The constructor of a pydantic model checks every field, in the order of declaration,
  and raises one error that holds an entry for each field that failed: here the names
  of those fields. \<^verbatim>\<open>Field(ge=...)\<close> is \<open>\<ge>\<close>, \<^verbatim>\<open>Field(gt=...)\<close> is \<open>>\<close>, and the four
  \<^verbatim>\<open>@validator\<close> methods test membership in the list of allowed values.
\<close>

definition ClientInput_errors :: "ClientInput \<Rightarrow> string list" where
  "ClientInput_errors d =
     (if contract d \<in> set CONTRACT_VALUES then [] else [''contract'']) @
     (if tenure d \<ge> MIN_TENURE then [] else [''tenure'']) @
     (if monthly_charges d > MIN_MONTHLY_CHARGES then [] else [''monthly_charges'']) @
     (if total_charges d \<ge> MIN_TOTAL_CHARGES then [] else [''total_charges'']) @
     (if payment_method d \<in> set PAYMENT_METHOD_VALUES then [] else [''payment_method'']) @
     (if internet_service d \<in> set INTERNET_SERVICE_VALUES then [] else [''internet_service'']) @
     (if paperless_billing d \<in> set PAPERLESS_BILLING_VALUES then []
      else [''paperless_billing''])"

definition validate_input :: "ClientInput \<Rightarrow> error + ClientInput" where
  "validate_input client_data =
     (case ClientInput_errors client_data of
        [] \<Rightarrow> Inr client_data
      | e # es \<Rightarrow> Inl (ValidationError (e # es)))"

record ChurnPreprocessor =
  encoder_manager :: EncoderManager
  feature_order :: "string list"

definition ChurnPreprocessor_init ::
  "(string \<rightharpoonup> label_encoder) \<Rightarrow> error + ChurnPreprocessor" where
  "ChurnPreprocessor_init files =
     (case EncoderManager_init files of
        Inl e \<Rightarrow> Inl e
      | Inr em \<Rightarrow> Inr \<lparr>encoder_manager = em, feature_order = MODEL_FEATURES\<rparr>)"

definition encode_categorical_features ::
  "ChurnPreprocessor \<Rightarrow> ClientInput \<Rightarrow> error + (string \<rightharpoonup> int)" where
  "encode_categorical_features self validated_input =
     encode_all_features (encoder_manager self)
       [''Contract'' \<mapsto> contract validated_input,
        ''PaymentMethod'' \<mapsto> payment_method validated_input,
        ''InternetService'' \<mapsto> internet_service validated_input,
        ''PaperlessBilling'' \<mapsto> paperless_billing validated_input]"

definition compute_engineered_features :: "ClientInput \<Rightarrow> error + (string \<rightharpoonup> number)" where
  "compute_engineered_features validated_input =
     (case compute_all_engineered_features (tenure validated_input)
             (monthly_charges validated_input) (total_charges validated_input) of
        Inl e \<Rightarrow> Inl e
      | Inr engineered_features \<Rightarrow>
          if \<not> validate_engineered_features engineered_features then Inl InternalError
          else Inr engineered_features)"

definition all_features ::
  "ClientInput \<Rightarrow> (string \<rightharpoonup> int) \<Rightarrow> (string \<rightharpoonup> number) \<Rightarrow> (string \<rightharpoonup> number)" where
  "all_features validated_input encoded_features engineered_features =
     [''tenure'' \<mapsto> IntV (tenure validated_input),
      ''MonthlyCharges'' \<mapsto> FloatV (monthly_charges validated_input),
      ''TotalCharges'' \<mapsto> FloatV (total_charges validated_input)]
     ++ (\<lambda>k. map_option IntV (encoded_features k))
     ++ engineered_features"

text \<open>The loop of \<^verbatim>\<open>build_feature_vector\<close> over \<^verbatim>\<open>self.feature_order\<close>.\<close>

fun build_loop ::
  "(string \<rightharpoonup> number) \<Rightarrow> string list \<Rightarrow> number list \<Rightarrow> error + number list" where
  "build_loop feats [] feature_vector = Inr feature_vector"
| "build_loop feats (feature_name # rest) feature_vector =
     (case feats feature_name of
        None \<Rightarrow> Inl (MissingFeature feature_name)
      | Some x \<Rightarrow> build_loop feats rest (feature_vector @ [x]))"

definition build_feature_vector ::
  "ChurnPreprocessor \<Rightarrow> ClientInput \<Rightarrow> (string \<rightharpoonup> int) \<Rightarrow> (string \<rightharpoonup> number)
     \<Rightarrow> error + rat list" where
  "build_feature_vector self validated_input encoded_features engineered_features =
     (case build_loop (all_features validated_input encoded_features engineered_features)
             (feature_order self) [] of
        Inl e \<Rightarrow> Inl e
      | Inr feature_vector \<Rightarrow> Inr (map as_float feature_vector))"

record metadata =
  input_data :: ClientInput
  encoded_features :: "string \<rightharpoonup> int"
  engineered_features :: "string \<rightharpoonup> number"
  feature_names :: "string list"
  feature_vector_shape :: nat

definition preprocess :: "ChurnPreprocessor \<Rightarrow> ClientInput \<Rightarrow> error + (rat list \<times> metadata)" where
  "preprocess self client_data =
     (case validate_input client_data of
        Inl e \<Rightarrow> Inl e
      | Inr validated_input \<Rightarrow>
     (case encode_categorical_features self validated_input of
        Inl e \<Rightarrow> Inl e
      | Inr enc \<Rightarrow>
     (case compute_engineered_features validated_input of
        Inl e \<Rightarrow> Inl e
      | Inr eng \<Rightarrow>
     (case build_feature_vector self validated_input enc eng of
        Inl e \<Rightarrow> Inl e
      | Inr feature_vector \<Rightarrow>
          Inr (feature_vector,
               \<lparr>input_data = validated_input,
                encoded_features = enc,
                engineered_features = eng,
                feature_names = feature_order self,
                feature_vector_shape = length feature_vector\<rparr>)))))"

text \<open>The loop of \<^verbatim>\<open>preprocess_batch\<close> over \<^verbatim>\<open>enumerate(clients_data)\<close>.\<close>

fun preprocess_batch_loop ::
  "ChurnPreprocessor \<Rightarrow> ClientInput list \<Rightarrow> nat \<Rightarrow> rat list list \<Rightarrow> metadata list
     \<Rightarrow> error + (rat list list \<times> metadata list)" where
  "preprocess_batch_loop self [] i feature_vectors metadatas =
     Inr (feature_vectors, metadatas)"
| "preprocess_batch_loop self (client_data # rest) i feature_vectors metadatas =
     (case preprocess self client_data of
        Inl e \<Rightarrow> Inl (BatchError i e)
      | Inr (feature_vector, md) \<Rightarrow>
          preprocess_batch_loop self rest (Suc i)
            (feature_vectors @ [feature_vector]) (metadatas @ [md]))"

definition preprocess_batch ::
  "ChurnPreprocessor \<Rightarrow> ClientInput list \<Rightarrow> error + (rat list list \<times> metadata list)" where
  "preprocess_batch self clients_data = preprocess_batch_loop self clients_data 0 [] []"

subsection \<open>The encoder files and the data model of the specification\<close>

text \<open>
  What the pipeline needs of the unpickled encoders: each one was fitted on every allowed
  value of its feature, so that \<^verbatim>\<open>transform\<close> does not raise on an allowed value.
\<close>

definition fitted_on :: "label_encoder \<Rightarrow> string list \<Rightarrow> bool" where
  "fitted_on encoder classes = list_all (\<lambda>v. encoder v \<noteq> None) classes"

definition encoders_fitted :: "EncoderManager \<Rightarrow> bool" where
  "encoders_fitted self =
     list_all
       (\<lambda>(feature_name, encoder).
          case feature_mappings self feature_name of
            None \<Rightarrow> False
          | Some valid_values \<Rightarrow> fitted_on encoder valid_values)
       (encoders self)"

text \<open>
  Modelled from the spec: the persisted encoder files (\<^verbatim>\<open>labelencoder_*.pkl\<close>), which
  the repository loads and does not contain. The specification has one fixed table from
  value to code per categorical field, over the field's allowed values; the codes are
  the positions in the sorted list of allowed values, as the repository's tests expect
  (\<^verbatim>\<open>'Month-to-month'\<close> 0, \<^verbatim>\<open>'One year'\<close> 1, \<^verbatim>\<open>'Two year'\<close> 2, \<^verbatim>\<open>'Electronic check'\<close> 2).
  Only the witnesses use these tables: the theorems hold for any files.
\<close>

definition label_encoder_of :: "string list \<Rightarrow> label_encoder" where
  "label_encoder_of classes = map_of (map (\<lambda>(i, c). (c, int i)) (enumerate 0 classes))"

definition trained_files :: "string \<rightharpoonup> label_encoder" where
  "trained_files =
     map_of [(''Contract'', label_encoder_of CONTRACT_VALUES),
             (''PaymentMethod'', label_encoder_of PAYMENT_METHOD_VALUES),
             (''InternetService'', label_encoder_of INTERNET_SERVICE_VALUES),
             (''PaperlessBilling'', label_encoder_of PAPERLESS_BILLING_VALUES)]"

text \<open>The manager that \<open>EncoderManager_init\<close> builds from these files.\<close>

definition trained_manager :: EncoderManager where
  "trained_manager =
     \<lparr>encoders = [(''Contract'', label_encoder_of CONTRACT_VALUES),
                  (''PaymentMethod'', label_encoder_of PAYMENT_METHOD_VALUES),
                  (''InternetService'', label_encoder_of INTERNET_SERVICE_VALUES),
                  (''PaperlessBilling'', label_encoder_of PAPERLESS_BILLING_VALUES)],
      feature_mappings =
        map_of [(''Contract'', CONTRACT_VALUES),
                (''PaymentMethod'', PAYMENT_METHOD_VALUES),
                (''InternetService'', INTERNET_SERVICE_VALUES),
                (''PaperlessBilling'', PAPERLESS_BILLING_VALUES)]\<rparr>"

text \<open>The preprocessor that \<open>ChurnPreprocessor_init\<close> builds from these files.\<close>

definition trained_preprocessor :: ChurnPreprocessor where
  "trained_preprocessor = \<lparr>encoder_manager = trained_manager, feature_order = MODEL_FEATURES\<rparr>"

text \<open>
  The constraints of the raw input in the words of the specification (its section 3),
  field by field: the fields of a record that violate them. The code's own checks are
  \<open>ClientInput_errors\<close> above.
\<close>

definition spec_violated_fields :: "ClientInput \<Rightarrow> string list" where
  "spec_violated_fields d =
     (if contract d \<in> {''Month-to-month'', ''One year'', ''Two year''} then []
      else [''contract'']) @
     (if 0 \<le> tenure d then [] else [''tenure'']) @
     (if 0 < monthly_charges d then [] else [''monthly_charges'']) @
     (if 0 \<le> total_charges d then [] else [''total_charges'']) @
     (if payment_method d \<in> {''Bank transfer (automatic)'', ''Credit card (automatic)'',
                               ''Electronic check'', ''Mailed check''} then []
      else [''payment_method'']) @
     (if internet_service d \<in> {''DSL'', ''Fiber optic'', ''No''} then []
      else [''internet_service'']) @
     (if paperless_billing d \<in> {''No'', ''Yes''} then [] else [''paperless_billing''])"

section \<open>Feature engineering\<close>



subsection \<open>The tenure segment\<close>

lemma segment_of_tenure:
  "0 \<le> n \<Longrightarrow> calculate_tenure_segment_encoded n =
     Inr (if n \<le> 6 then 0 else if n \<le> 12 then 1 else if n \<le> 24 then 2 else 3)"
  by (simp add: calculate_tenure_segment_encoded_def TENURE_SEGMENT_MAPPING_def)

text \<open>
  C4. For every \<open>tenure \<ge> 0\<close>, \<^verbatim>\<open>calculate_tenure_segment_encoded\<close> is the step function
  that sends \<open>tenure \<le> 6\<close> to 0, \<open>7 \<le> tenure \<le> 12\<close> to 1, \<open>13 \<le> tenure \<le> 24\<close> to 2 and
  every \<open>tenure > 24\<close> to 3, with no upper bound on the tenure; the witness evaluates it
  at 6, 7, 12, 13, 24 and 25.
\<close>

theorem tenure_segment_step:
  assumes "0 \<le> n"
  shows "calculate_tenure_segment_encoded n =
           Inr (if n \<le> 6 then 0 else if n \<le> 12 then 1 else if n \<le> 24 then 2 else 3)"
  using assms by (rule segment_of_tenure)

theorem tenure_segment_step_witness:
  "calculate_tenure_segment_encoded 6 = Inr 0 \<and>
   calculate_tenure_segment_encoded 7 = Inr 1 \<and>
   calculate_tenure_segment_encoded 12 = Inr 1 \<and>
   calculate_tenure_segment_encoded 13 = Inr 2 \<and>
   calculate_tenure_segment_encoded 24 = Inr 2 \<and>
   calculate_tenure_segment_encoded 25 = Inr 3"
  using tenure_segment_step [of 6] tenure_segment_step [of 7] tenure_segment_step [of 12]
        tenure_segment_step [of 13] tenure_segment_step [of 24] tenure_segment_step [of 25]
  by simp

text \<open>
  C10. For every \<open>tenure \<ge> 0\<close>, the tenure segment is 0 if and only if the new-customer
  flag is 1: both are decided by \<open>tenure \<le> 6\<close>.
\<close>

theorem lowest_segment_iff_new_customer:
  assumes "0 \<le> n"
  shows "(calculate_tenure_segment_encoded n = Inr 0) = (calculate_is_new_customer n = Inr 1)"
  using assms by (simp add: segment_of_tenure calculate_is_new_customer_def)

theorem lowest_segment_iff_new_customer_witness:
  "calculate_tenure_segment_encoded 6 = Inr 0 \<and> calculate_is_new_customer 6 = Inr 1 \<and>
   calculate_tenure_segment_encoded 7 \<noteq> Inr 0 \<and> calculate_is_new_customer 7 \<noteq> Inr 1"
  using lowest_segment_iff_new_customer [of 6] lowest_segment_iff_new_customer [of 7]
  by (simp add: calculate_is_new_customer_def)

subsection \<open>The validation gate\<close>

lemma compute_all_engineered_features_ok:
  assumes "0 \<le> n" and "0 < mc" and "0 \<le> tc"
  shows "compute_all_engineered_features n mc tc =
           Inr [''Ratio_MonthlyCharges_tenure'' \<mapsto> FloatV (mc / of_int (n + 1)),
                ''tenure_segment_encoded'' \<mapsto>
                   IntV (if n \<le> 6 then 0 else if n \<le> 12 then 1 else if n \<le> 24 then 2 else 3),
                ''is_new_customer'' \<mapsto> IntV (if n \<le> 6 then 1 else 0),
                ''Ratio_TotalCharges_MonthlyCharges*tenure'' \<mapsto>
                   FloatV (if n = 0 then 1 else tc / (mc * of_int n))]"
  using assms
  by (simp add: compute_all_engineered_features_def segment_of_tenure
        calculate_ratio_monthly_charges_tenure_def calculate_is_new_customer_def
        calculate_ratio_total_monthly_tenure_def)

lemma validate_engineered_features_ok:
  assumes "0 < r1" and "seg \<in> {0, 1, 2, 3}" and "new \<in> {0, 1}" and "0 \<le> r2"
  shows "validate_engineered_features
           [''Ratio_MonthlyCharges_tenure'' \<mapsto> FloatV r1,
            ''tenure_segment_encoded'' \<mapsto> IntV seg,
            ''is_new_customer'' \<mapsto> IntV new,
            ''Ratio_TotalCharges_MonthlyCharges*tenure'' \<mapsto> FloatV r2]"
  using assms
  by (auto simp add: validate_engineered_features_def required_features_def)

lemma compute_engineered_features_ok:
  assumes "0 \<le> tenure vi" and "0 < monthly_charges vi" and "0 \<le> total_charges vi"
  shows "compute_engineered_features vi =
           compute_all_engineered_features (tenure vi) (monthly_charges vi) (total_charges vi)"
proof -
  have r1: "0 < monthly_charges vi / of_int (tenure vi + 1)"
    using assms by simp
  have r2: "0 \<le> (if tenure vi = 0 then 1
                  else total_charges vi / (monthly_charges vi * of_int (tenure vi)))"
    using assms by simp
  have seg: "(if tenure vi \<le> 6 then 0 else if tenure vi \<le> 12 then 1
              else if tenure vi \<le> 24 then 2 else 3) \<in> {0, 1, 2, 3::int}"
    by simp
  have new: "(if tenure vi \<le> 6 then 1 else 0) \<in> {0, 1::int}"
    by simp
  show ?thesis
    unfolding compute_engineered_features_def compute_all_engineered_features_ok [OF assms]
    using validate_engineered_features_ok [OF r1 seg new r2] by simp
qed



section \<open>Validation of the raw input\<close>

lemma validate_input_Inr_iff:
  "validate_input d = Inr vi \<longleftrightarrow>
     vi = d \<and> contract d \<in> set CONTRACT_VALUES \<and> 0 \<le> tenure d \<and>
     1 / 100 < monthly_charges d \<and> 0 \<le> total_charges d \<and>
     payment_method d \<in> set PAYMENT_METHOD_VALUES \<and>
     internet_service d \<in> set INTERNET_SERVICE_VALUES \<and>
     paperless_billing d \<in> set PAPERLESS_BILLING_VALUES"
  by (auto simp add: validate_input_def ClientInput_errors_def MIN_TENURE_def
        MIN_MONTHLY_CHARGES_def MIN_TOTAL_CHARGES_def split: list.splits if_splits)

lemma validate_input_Inl:
  "ClientInput_errors d \<noteq> [] \<Longrightarrow> validate_input d = Inl (ValidationError (ClientInput_errors d))"
  by (cases "ClientInput_errors d") (simp_all add: validate_input_def)

text \<open>
  C1. The specification's constraint on \<open>monthly_charges\<close> is \<open>> 0\<close>, and the claim is
  that validation accepts every value in \<open>(0, 0.01]\<close>. \<^verbatim>\<open>ClientInput\<close> declares the field
  with \<^verbatim>\<open>gt=MIN_MONTHLY_CHARGES\<close>, that is \<open>> 0.01\<close>: a record that is valid in every other
  field is rejected at \<open>monthly_charges = 0.01\<close>, the very value the constant names as the
  minimum.
\<close>

theorem validate_input_rejects_one_cent:
  "validate_input
     \<lparr>contract = ''Month-to-month'', tenure = 12, monthly_charges = 1 / 100,
      total_charges = 906, payment_method = ''Electronic check'',
      internet_service = ''Fiber optic'', paperless_billing = ''Yes''\<rparr>
   = Inl (ValidationError [''monthly_charges''])"
  by (simp add: validate_input_def ClientInput_errors_def CONTRACT_VALUES_def
        PAYMENT_METHOD_VALUES_def INTERNET_SERVICE_VALUES_def PAPERLESS_BILLING_VALUES_def
        MIN_TENURE_def MIN_MONTHLY_CHARGES_def MIN_TOTAL_CHARGES_def)

lemma spec_violated_subset:
  "set (spec_violated_fields d) \<subseteq> set (ClientInput_errors d)"
  by (auto simp add: spec_violated_fields_def ClientInput_errors_def CONTRACT_VALUES_def
        PAYMENT_METHOD_VALUES_def INTERNET_SERVICE_VALUES_def PAPERLESS_BILLING_VALUES_def
        MIN_TENURE_def MIN_MONTHLY_CHARGES_def MIN_TOTAL_CHARGES_def split: if_splits)

lemma distinct_ClientInput_errors: "distinct (ClientInput_errors d)"
  by (simp add: ClientInput_errors_def)

text \<open>
  C7. When a raw input violates the constraints of the specification's section 3 on more
  than one field, \<^verbatim>\<open>validate_input\<close> fails with one \<open>ValidationError\<close> that names every
  violated field (each once), not only the first.
\<close>

theorem validation_error_names_every_violated_field:
  assumes "1 < length (spec_violated_fields d)"
  shows "\<exists>fs. validate_input d = Inl (ValidationError fs) \<and>
              set (spec_violated_fields d) \<subseteq> set fs \<and> distinct fs \<and>
              fs = ClientInput_errors d"
proof -
  from assms have "spec_violated_fields d \<noteq> []" by auto
  with spec_violated_subset [of d] have "ClientInput_errors d \<noteq> []" by auto
  then have "validate_input d = Inl (ValidationError (ClientInput_errors d))"
    by (rule validate_input_Inl)
  with spec_violated_subset [of d] distinct_ClientInput_errors [of d] show ?thesis
    by blast
qed

theorem validation_error_names_every_violated_field_witness:
  "spec_violated_fields
     \<lparr>contract = ''Weekly'', tenure = - 1, monthly_charges = 0,
      total_charges = 906, payment_method = ''Electronic check'',
      internet_service = ''Fiber optic'', paperless_billing = ''Maybe''\<rparr>
     = [''contract'', ''tenure'', ''monthly_charges'', ''paperless_billing''] \<and>
   validate_input
     \<lparr>contract = ''Weekly'', tenure = - 1, monthly_charges = 0,
      total_charges = 906, payment_method = ''Electronic check'',
      internet_service = ''Fiber optic'', paperless_billing = ''Maybe''\<rparr>
     = Inl (ValidationError [''contract'', ''tenure'', ''monthly_charges'', ''paperless_billing''])"
proof -
  let ?d = "\<lparr>contract = ''Weekly'', tenure = - 1, monthly_charges = 0,
      total_charges = 906, payment_method = ''Electronic check'',
      internet_service = ''Fiber optic'', paperless_billing = ''Maybe''\<rparr>"
  have v: "spec_violated_fields ?d =
             [''contract'', ''tenure'', ''monthly_charges'', ''paperless_billing'']"
    by (simp add: spec_violated_fields_def)
  have e: "ClientInput_errors ?d =
             [''contract'', ''tenure'', ''monthly_charges'', ''paperless_billing'']"
    by (simp add: ClientInput_errors_def CONTRACT_VALUES_def
        PAYMENT_METHOD_VALUES_def INTERNET_SERVICE_VALUES_def PAPERLESS_BILLING_VALUES_def
        MIN_TENURE_def MIN_MONTHLY_CHARGES_def MIN_TOTAL_CHARGES_def)
  have len: "1 < length (spec_violated_fields ?d)"
    unfolding v by simp
  show ?thesis
    using validation_error_names_every_violated_field [OF len] v e by auto
qed

section \<open>The categorical encoder\<close>

lemma init_encoder_keys:
  "EncoderManager_init files = Inr m \<Longrightarrow> map fst (encoders m) = ENCODER_FILES"
  by (auto simp add: EncoderManager_init_def ENCODER_FILES_def split: option.splits sum.splits)

lemma init_feature_mappings:
  "EncoderManager_init files = Inr m \<Longrightarrow>
     feature_mappings m =
       map_of [(''Contract'', CONTRACT_VALUES),
               (''PaymentMethod'', PAYMENT_METHOD_VALUES),
               (''InternetService'', INTERNET_SERVICE_VALUES),
               (''PaperlessBilling'', PAPERLESS_BILLING_VALUES)]"
  by (auto simp add: EncoderManager_init_def split: sum.splits)

lemma distinct_ENCODER_FILES: "distinct ENCODER_FILES"
  by (simp add: ENCODER_FILES_def)

lemma encode_feature_unknown:
  "map_of (encoders m) f = None \<Longrightarrow> encode_feature m f v = Inl (UnknownField f)"
  by (simp add: encode_feature_def)

lemma encode_feature_not_allowed:
  "map_of (encoders m) f = Some e \<Longrightarrow> feature_mappings m f = Some vs \<Longrightarrow> v \<notin> set vs \<Longrightarrow>
     encode_feature m f v = Inl (InvalidValue f v)"
  by (simp add: encode_feature_def)

lemma encode_feature_allowed:
  "map_of (encoders m) f = Some e \<Longrightarrow> feature_mappings m f = Some vs \<Longrightarrow> v \<in> set vs \<Longrightarrow>
     e v = Some c \<Longrightarrow> encode_feature m f v = Inr c"
  by (simp add: encode_feature_def)

lemma encoders_fitted_lookup:
  assumes "encoders_fitted m" and "(f, e) \<in> set (encoders m)"
  shows "\<exists>vs. feature_mappings m f = Some vs \<and> (\<forall>v\<in>set vs. \<exists>c. e v = Some c)"
  using assms
  by (auto simp add: encoders_fitted_def fitted_on_def list_all_iff split: option.splits)

lemma initialised_unknown:
  assumes init: "EncoderManager_init files = Inr m" and f: "f \<notin> set ENCODER_FILES"
  shows "encode_feature m f v = Inl (UnknownField f)"
proof -
  from f init_encoder_keys [OF init] have "f \<notin> fst ` set (encoders m)"
    by (metis set_map)
  then have "map_of (encoders m) f = None"
    by (simp add: map_of_eq_None_iff)
  then show ?thesis by (rule encode_feature_unknown)
qed

lemma initialised_known:
  assumes init: "EncoderManager_init files = Inr m" and fit: "encoders_fitted m"
    and f: "f \<in> set ENCODER_FILES"
  shows "\<exists>vs. feature_mappings m f = Some vs \<and>
               (v \<in> set vs \<longrightarrow> (\<exists>c. encode_feature m f v = Inr c)) \<and>
               (v \<notin> set vs \<longrightarrow> encode_feature m f v = Inl (InvalidValue f v))"
proof -
  from f init_encoder_keys [OF init] have "f \<in> fst ` set (encoders m)"
    by (metis set_map)
  then obtain e where mem: "(f, e) \<in> set (encoders m)"
    by auto
  have "distinct (map fst (encoders m))"
    using init_encoder_keys [OF init] distinct_ENCODER_FILES by simp
  with mem have look: "map_of (encoders m) f = Some e"
    by simp
  from encoders_fitted_lookup [OF fit mem] obtain vs where
    vs: "feature_mappings m f = Some vs" and all: "\<forall>v\<in>set vs. \<exists>c. e v = Some c"
    by blast
  have ok: "\<exists>c. encode_feature m f v = Inr c" if "v \<in> set vs"
  proof -
    from all that obtain c where "e v = Some c" by blast
    with encode_feature_allowed [OF look vs that] show ?thesis by blast
  qed
  have bad: "encode_feature m f v = Inl (InvalidValue f v)" if "v \<notin> set vs"
    using encode_feature_not_allowed [OF look vs that] .
  from vs ok bad show ?thesis by blast
qed


text \<open>
  C5. For a manager that the constructor has built, with encoders fitted on the allowed
  values: for each of the four recognised fields, \<^verbatim>\<open>encode_feature\<close> returns a code for
  every value in the field's list of allowed values and fails with \<open>InvalidValue\<close> for
  every other value; for every other field name it fails with \<open>UnknownField\<close>. It succeeds
  if and only if the field is recognised and the value is allowed.
\<close>

theorem encode_feature_succeeds_iff:
  assumes "EncoderManager_init files = Inr m" and "encoders_fitted m"
  shows "feature_mappings m =
           map_of [(''Contract'', CONTRACT_VALUES),
                   (''PaymentMethod'', PAYMENT_METHOD_VALUES),
                   (''InternetService'', INTERNET_SERVICE_VALUES),
                   (''PaperlessBilling'', PAPERLESS_BILLING_VALUES)] \<and>
         (f \<notin> set ENCODER_FILES \<longrightarrow> encode_feature m f v = Inl (UnknownField f)) \<and>
         (f \<in> set ENCODER_FILES \<longrightarrow>
            (\<exists>vs. feature_mappings m f = Some vs \<and>
               (v \<in> set vs \<longrightarrow> (\<exists>c. encode_feature m f v = Inr c)) \<and>
               (v \<notin> set vs \<longrightarrow> encode_feature m f v = Inl (InvalidValue f v)))) \<and>
         ((\<exists>c. encode_feature m f v = Inr c) \<longleftrightarrow>
            f \<in> set ENCODER_FILES \<and> (\<exists>vs. feature_mappings m f = Some vs \<and> v \<in> set vs))"
proof (intro conjI)
  show "feature_mappings m =
           map_of [(''Contract'', CONTRACT_VALUES),
                   (''PaymentMethod'', PAYMENT_METHOD_VALUES),
                   (''InternetService'', INTERNET_SERVICE_VALUES),
                   (''PaperlessBilling'', PAPERLESS_BILLING_VALUES)]"
    by (rule init_feature_mappings [OF assms(1)])
  show "f \<notin> set ENCODER_FILES \<longrightarrow> encode_feature m f v = Inl (UnknownField f)"
    using initialised_unknown [OF assms(1)] by simp
  show "f \<in> set ENCODER_FILES \<longrightarrow>
            (\<exists>vs. feature_mappings m f = Some vs \<and>
               (v \<in> set vs \<longrightarrow> (\<exists>c. encode_feature m f v = Inr c)) \<and>
               (v \<notin> set vs \<longrightarrow> encode_feature m f v = Inl (InvalidValue f v)))"
    using initialised_known [OF assms] by simp
  show "(\<exists>c. encode_feature m f v = Inr c) \<longleftrightarrow>
            f \<in> set ENCODER_FILES \<and> (\<exists>vs. feature_mappings m f = Some vs \<and> v \<in> set vs)"
  proof (cases "f \<in> set ENCODER_FILES")
    case False
    with initialised_unknown [OF assms(1), of f v] show ?thesis by simp
  next
    case True
    from initialised_known [OF assms True, of v] obtain vs where
      vs: "feature_mappings m f = Some vs"
      and ok: "v \<in> set vs \<longrightarrow> (\<exists>c. encode_feature m f v = Inr c)"
      and bad: "v \<notin> set vs \<longrightarrow> encode_feature m f v = Inl (InvalidValue f v)"
      by blast
    show ?thesis
    proof (cases "v \<in> set vs")
      case True
      with ok vs \<open>f \<in> set ENCODER_FILES\<close> show ?thesis by simp
    next
      case False
      with bad vs show ?thesis by simp
    qed
  qed
qed

lemma trained_files_init: "EncoderManager_init trained_files = Inr trained_manager"
  by (simp add: EncoderManager_init_def ENCODER_FILES_def trained_files_def trained_manager_def)

lemma trained_manager_fitted: "encoders_fitted trained_manager"
  by (simp add: encoders_fitted_def fitted_on_def trained_manager_def label_encoder_of_def
        CONTRACT_VALUES_def PAYMENT_METHOD_VALUES_def INTERNET_SERVICE_VALUES_def
        PAPERLESS_BILLING_VALUES_def)

theorem encode_feature_succeeds_iff_witness:
  "encode_feature trained_manager ''Contract'' ''Two year'' = Inr 2 \<and>
   encode_feature trained_manager ''PaymentMethod'' ''Electronic check'' = Inr 2 \<and>
   encode_feature trained_manager ''Contract'' ''Weekly''
     = Inl (InvalidValue ''Contract'' ''Weekly'') \<and>
   encode_feature trained_manager ''Gender'' ''Female'' = Inl (UnknownField ''Gender'')"
proof -
  note t = encode_feature_succeeds_iff [OF trained_files_init trained_manager_fitted]
  have a: "encode_feature trained_manager ''Contract'' ''Two year'' = Inr 2"
    by (simp add: encode_feature_def trained_manager_def label_encoder_of_def
          CONTRACT_VALUES_def)
  have b: "encode_feature trained_manager ''PaymentMethod'' ''Electronic check'' = Inr 2"
    by (simp add: encode_feature_def trained_manager_def label_encoder_of_def
          PAYMENT_METHOD_VALUES_def)
  have c: "encode_feature trained_manager ''Contract'' ''Weekly''
             = Inl (InvalidValue ''Contract'' ''Weekly'')"
  proof -
    have known: "''Contract'' \<in> set ENCODER_FILES"
      by (simp add: ENCODER_FILES_def)
    have fm: "feature_mappings trained_manager ''Contract'' = Some CONTRACT_VALUES"
      by (simp add: trained_manager_def)
    have out: "''Weekly'' \<notin> set CONTRACT_VALUES"
      by (simp add: CONTRACT_VALUES_def)
    from t [of "''Contract''" "''Weekly''", THEN conjunct2, THEN conjunct2, THEN conjunct1]
      known fm out
    show ?thesis by simp
  qed
  have d: "encode_feature trained_manager ''Gender'' ''Female'' = Inl (UnknownField ''Gender'')"
  proof -
    have unknown: "''Gender'' \<notin> set ENCODER_FILES"
      by (simp add: ENCODER_FILES_def)
    from t [of "''Gender''" "''Female''", THEN conjunct2, THEN conjunct1] unknown
    show ?thesis by simp
  qed
  from a b c d show ?thesis by simp
qed

section \<open>Encoding all categorical features\<close>

lemma encode_all_loop_keys:
  "encode_all_loop m data ks acc = Inr enc \<Longrightarrow>
     (f \<in> dom enc) = (f \<in> dom acc \<or> (f \<in> dom data \<and> f \<in> set ks))"
proof (induction ks arbitrary: acc)
  case Nil
  then show ?case by simp
next
  case (Cons k ks)
  show ?case
  proof (cases "data k")
    case None
    with Cons.prems have "encode_all_loop m data ks acc = Inr enc" by simp
    from Cons.IH [OF this] None show ?thesis by auto
  next
    case (Some v)
    with Cons.prems obtain c where c: "encode_feature m k v = Inr c"
      and rest: "encode_all_loop m data ks (acc(k \<mapsto> c)) = Inr enc"
      by (auto split: sum.splits)
    have "(f \<in> dom enc) = (f \<in> dom (acc(k \<mapsto> c)) \<or> (f \<in> dom data \<and> f \<in> set ks))"
      by (rule Cons.IH [OF rest])
    with Some show ?thesis by auto
  qed
qed

lemma encode_all_loop_dom:
  assumes "encode_all_loop m data ks acc = Inr enc"
  shows "dom enc = dom acc \<union> (dom data \<inter> set ks)"
proof (rule set_eqI)
  fix f
  from encode_all_loop_keys [OF assms, of f]
  show "(f \<in> dom enc) = (f \<in> dom acc \<union> (dom data \<inter> set ks))" by simp
qed

lemma encode_all_loop_codes:
  "encode_all_loop m data ks acc = Inr enc \<Longrightarrow> enc f = Some c \<Longrightarrow>
     acc f = Some c \<or> (\<exists>v. f \<in> set ks \<and> data f = Some v \<and> encode_feature m f v = Inr c)"
proof (induction ks arbitrary: acc)
  case Nil
  then show ?case by simp
next
  case (Cons k ks)
  show ?case
  proof (cases "data k")
    case None
    with Cons.prems have "encode_all_loop m data ks acc = Inr enc" by simp
    from Cons.IH [OF this Cons.prems(2)] show ?thesis by auto
  next
    case (Some v)
    with Cons.prems obtain c' where c': "encode_feature m k v = Inr c'"
      and rest: "encode_all_loop m data ks (acc(k \<mapsto> c')) = Inr enc"
      by (auto split: sum.splits)
    from Cons.IH [OF rest Cons.prems(2)] Some c' show ?thesis
      by (auto split: if_splits)
  qed
qed

lemma encode_all_loop_error:
  "encode_all_loop m data ks acc = Inl e \<Longrightarrow>
     \<exists>f v. f \<in> set ks \<and> data f = Some v \<and> encode_feature m f v = Inl e"
proof (induction ks arbitrary: acc)
  case Nil
  then show ?case by simp
next
  case (Cons k ks)
  show ?case
  proof (cases "data k")
    case None
    with Cons.prems have "encode_all_loop m data ks acc = Inl e" by simp
    from Cons.IH [OF this] show ?thesis by auto
  next
    case (Some v)
    show ?thesis
    proof (cases "encode_feature m k v")
      case (Inl e')
      with Some Cons.prems have "e' = e" by simp
      with Inl Some show ?thesis by auto
    next
      case (Inr c)
      with Some Cons.prems have "encode_all_loop m data ks (acc(k \<mapsto> c)) = Inl e" by simp
      from Cons.IH [OF this] show ?thesis by auto
    qed
  qed
qed

lemma encode_all_loop_returns:
  "(\<And>f v. f \<in> set ks \<Longrightarrow> data f = Some v \<Longrightarrow> \<exists>c. encode_feature m f v = Inr c) \<Longrightarrow>
     \<exists>enc. encode_all_loop m data ks acc = Inr enc"
proof (induction ks arbitrary: acc)
  case Nil
  then show ?case by simp
next
  case (Cons k ks)
  have rest: "\<exists>enc. encode_all_loop m data ks acc' = Inr enc" for acc'
    by (rule Cons.IH) (auto intro: Cons.prems)
  show ?case
  proof (cases "data k")
    case None
    with rest [of acc] show ?thesis by simp
  next
    case (Some v)
    with Cons.prems [of k v] obtain c where "encode_feature m k v = Inr c" by auto
    with Some rest [of "acc(k \<mapsto> c)"] show ?thesis by simp
  qed
qed

lemma build_loop_missing:
  "f \<in> set ns \<Longrightarrow> feats f = None \<Longrightarrow> \<exists>g. build_loop feats ns acc = Inl (MissingFeature g)"
proof (induction ns arbitrary: acc)
  case Nil
  then show ?case by simp
next
  case (Cons n ns)
  show ?case
  proof (cases "feats n")
    case None
    then show ?thesis by simp
  next
    case (Some x)
    with Cons.prems have "f \<in> set ns" by auto
    from Cons.IH [OF this Cons.prems(2)] Some show ?thesis by simp
  qed
qed

text \<open>
  C9. \<^verbatim>\<open>encode_all_features\<close> never fails for an absent field. When it returns, the
  result has exactly the keys of the input that are recognised fields, each with the code
  of its value; when it fails, the error is the one \<^verbatim>\<open>encode_feature\<close> raised on a
  field that is present; and when every present recognised field encodes, it returns. A
  field left out of the result is detected at assembly: \<^verbatim>\<open>build_feature_vector\<close> fails
  with \<open>MissingFeature\<close> when a feature of the model's order is in none of the
  dictionaries.
\<close>

theorem encode_all_features_omits_absent_fields:
  "(\<forall>enc. encode_all_features m data = Inr enc \<longrightarrow>
      dom enc = dom data \<inter> fst ` set (encoders m) \<and>
      (\<forall>f c. enc f = Some c \<longrightarrow> (\<exists>v. data f = Some v \<and> encode_feature m f v = Inr c))) \<and>
   (\<forall>e. encode_all_features m data = Inl e \<longrightarrow>
      (\<exists>f v. f \<in> fst ` set (encoders m) \<and> data f = Some v \<and> encode_feature m f v = Inl e)) \<and>
   ((\<forall>f v. f \<in> fst ` set (encoders m) \<and> data f = Some v \<longrightarrow>
        (\<exists>c. encode_feature m f v = Inr c)) \<longrightarrow>
      (\<exists>enc. encode_all_features m data = Inr enc)) \<and>
   (\<forall>f. f \<in> set (feature_order p) \<and>
        all_features vi enc' eng f = None \<longrightarrow>
        (\<exists>g. build_feature_vector p vi enc' eng = Inl (MissingFeature g)))"
proof (intro conjI allI impI)
  fix enc assume ok: "encode_all_features m data = Inr enc"
  then have loop: "encode_all_loop m data (map fst (encoders m)) Map.empty = Inr enc"
    by (simp add: encode_all_features_def)
  from encode_all_loop_dom [OF loop]
  show "dom enc = dom data \<inter> fst ` set (encoders m)" by simp
  fix f c assume "enc f = Some c"
  from encode_all_loop_codes [OF loop this]
  show "\<exists>v. data f = Some v \<and> encode_feature m f v = Inr c" by auto
next
  fix e assume "encode_all_features m data = Inl e"
  then have "encode_all_loop m data (map fst (encoders m)) Map.empty = Inl e"
    by (simp add: encode_all_features_def)
  from encode_all_loop_error [OF this]
  show "\<exists>f v. f \<in> fst ` set (encoders m) \<and> data f = Some v \<and> encode_feature m f v = Inl e"
    by simp
next
  assume all: "\<forall>f v. f \<in> fst ` set (encoders m) \<and> data f = Some v \<longrightarrow>
        (\<exists>c. encode_feature m f v = Inr c)"
  have "\<exists>enc. encode_all_loop m data (map fst (encoders m)) Map.empty = Inr enc"
    by (rule encode_all_loop_returns) (use all in auto)
  then show "\<exists>enc. encode_all_features m data = Inr enc"
    by (simp add: encode_all_features_def)
next
  fix f assume f: "f \<in> set (feature_order p) \<and> all_features vi enc' eng f = None"
  then have "\<exists>g. build_loop (all_features vi enc' eng) (feature_order p) []
                  = Inl (MissingFeature g)"
    by (intro build_loop_missing [of f]) simp_all
  then show "\<exists>g. build_feature_vector p vi enc' eng = Inl (MissingFeature g)"
    by (auto simp add: build_feature_vector_def)
qed

theorem encode_all_features_omits_absent_fields_witness:
  "encode_all_features trained_manager [''Contract'' \<mapsto> ''One year'']
     = Inr [''Contract'' \<mapsto> 1] \<and>
   dom [''Contract'' \<mapsto> (1::int)]
     = dom [''Contract'' \<mapsto> ''One year''] \<inter> fst ` set (encoders trained_manager) \<and>
   encode_all_features trained_manager Map.empty = Inr Map.empty"
proof -
  have one: "encode_all_features trained_manager [''Contract'' \<mapsto> ''One year'']
               = Inr [''Contract'' \<mapsto> 1]"
    by (simp add: encode_all_features_def trained_manager_def encode_feature_def
          label_encoder_of_def CONTRACT_VALUES_def)
  have none: "encode_all_features trained_manager Map.empty = Inr Map.empty"
    by (simp add: encode_all_features_def trained_manager_def)
  from encode_all_features_omits_absent_fields
         [of trained_manager "[''Contract'' \<mapsto> ''One year'']",
          THEN conjunct1, THEN spec, THEN mp, OF one, THEN conjunct1]
  have "dom [''Contract'' \<mapsto> (1::int)]
          = dom [''Contract'' \<mapsto> ''One year''] \<inter> fst ` set (encoders trained_manager)" .
  with one none show ?thesis by simp
qed

section \<open>The pipeline\<close>

lemma ChurnPreprocessor_init_Inr:
  assumes "ChurnPreprocessor_init files = Inr p"
  shows "EncoderManager_init files = Inr (encoder_manager p) \<and> feature_order p = MODEL_FEATURES"
  using assms by (auto simp add: ChurnPreprocessor_init_def split: sum.splits)

lemma encode_all_four:
  assumes keys: "map fst (encoders m) = ENCODER_FILES"
    and c: "encode_feature m ''Contract'' a = Inr cC"
    and pm: "encode_feature m ''PaymentMethod'' b = Inr cP"
    and isv: "encode_feature m ''InternetService'' c = Inr cI"
    and pb: "encode_feature m ''PaperlessBilling'' d = Inr cB"
  shows "encode_all_features m
           [''Contract'' \<mapsto> a, ''PaymentMethod'' \<mapsto> b,
            ''InternetService'' \<mapsto> c, ''PaperlessBilling'' \<mapsto> d]
         = Inr [''Contract'' \<mapsto> cC, ''PaymentMethod'' \<mapsto> cP,
                ''InternetService'' \<mapsto> cI, ''PaperlessBilling'' \<mapsto> cB]"
  unfolding encode_all_features_def keys ENCODER_FILES_def
  by (simp add: c pm isv pb)

lemma build_feature_vector_all:
  assumes "feature_order p = MODEL_FEATURES"
  shows "build_feature_vector p vi
           [''Contract'' \<mapsto> cC, ''PaymentMethod'' \<mapsto> cP,
            ''InternetService'' \<mapsto> cI, ''PaperlessBilling'' \<mapsto> cB]
           [''Ratio_MonthlyCharges_tenure'' \<mapsto> FloatV r1,
            ''tenure_segment_encoded'' \<mapsto> IntV seg,
            ''is_new_customer'' \<mapsto> IntV new,
            ''Ratio_TotalCharges_MonthlyCharges*tenure'' \<mapsto> FloatV r2]
         = Inr [r1, of_int cC, of_int (tenure vi), monthly_charges vi, of_int seg,
                total_charges vi, of_int new, of_int cP, of_int cI, of_int cB, r2]"
  unfolding build_feature_vector_def assms MODEL_FEATURES_def all_features_def
  by (simp add: map_add_def)

lemma initialised_encodes:
  assumes "EncoderManager_init files = Inr m" and "encoders_fitted m"
    and "f \<in> set ENCODER_FILES" and "feature_mappings m f = Some vs" and "v \<in> set vs"
  shows "\<exists>c. encode_feature m f v = Inr c"
proof -
  from initialised_known [OF assms(1-3), of v] obtain vs' where
    "feature_mappings m f = Some vs'"
    and "v \<in> set vs' \<longrightarrow> (\<exists>c. encode_feature m f v = Inr c)"
    by blast
  with assms(4,5) show ?thesis by simp
qed

lemma preprocess_validated:
  assumes init: "ChurnPreprocessor_init files = Inr p"
    and fit: "encoders_fitted (encoder_manager p)"
    and valid: "validate_input d = Inr vi"
  shows "\<exists>cC cP cI cB r1 seg new r2 md.
           encode_feature (encoder_manager p) ''Contract'' (contract d) = Inr cC \<and>
           encode_feature (encoder_manager p) ''PaymentMethod'' (payment_method d) = Inr cP \<and>
           encode_feature (encoder_manager p) ''InternetService'' (internet_service d) = Inr cI \<and>
           encode_feature (encoder_manager p) ''PaperlessBilling'' (paperless_billing d) = Inr cB \<and>
           calculate_ratio_monthly_charges_tenure (monthly_charges d) (tenure d) = Inr r1 \<and>
           calculate_tenure_segment_encoded (tenure d) = Inr seg \<and>
           calculate_is_new_customer (tenure d) = Inr new \<and>
           calculate_ratio_total_monthly_tenure (total_charges d) (monthly_charges d) (tenure d)
             = Inr r2 \<and>
           preprocess p d =
             Inr ([r1, of_int cC, of_int (tenure d), monthly_charges d, of_int seg,
                   total_charges d, of_int new, of_int cP, of_int cI, of_int cB, r2], md) \<and>
           feature_names md = MODEL_FEATURES \<and> feature_vector_shape md = 11"
proof -
  let ?m = "encoder_manager p"
  from ChurnPreprocessor_init_Inr [OF init]
  have em: "EncoderManager_init files = Inr ?m" and order: "feature_order p = MODEL_FEATURES"
    by simp_all
  note fm = init_feature_mappings [OF em]
  from valid have vi: "validate_input d = Inr d"
    and c_ok: "contract d \<in> set CONTRACT_VALUES"
    and t_ok: "0 \<le> tenure d"
    and mc_ok: "0 < monthly_charges d"
    and tc_ok: "0 \<le> total_charges d"
    and pm_ok: "payment_method d \<in> set PAYMENT_METHOD_VALUES"
    and is_ok: "internet_service d \<in> set INTERNET_SERVICE_VALUES"
    and pb_ok: "paperless_billing d \<in> set PAPERLESS_BILLING_VALUES"
    by (simp_all add: validate_input_Inr_iff)
  have "\<exists>c. encode_feature ?m ''Contract'' (contract d) = Inr c"
    by (rule initialised_encodes [OF em fit _ _ c_ok]) (simp_all add: ENCODER_FILES_def fm)
  then obtain cC where cC: "encode_feature ?m ''Contract'' (contract d) = Inr cC" ..
  have "\<exists>c. encode_feature ?m ''PaymentMethod'' (payment_method d) = Inr c"
    by (rule initialised_encodes [OF em fit _ _ pm_ok]) (simp_all add: ENCODER_FILES_def fm)
  then obtain cP where cP: "encode_feature ?m ''PaymentMethod'' (payment_method d) = Inr cP" ..
  have "\<exists>c. encode_feature ?m ''InternetService'' (internet_service d) = Inr c"
    by (rule initialised_encodes [OF em fit _ _ is_ok]) (simp_all add: ENCODER_FILES_def fm)
  then obtain cI where cI: "encode_feature ?m ''InternetService'' (internet_service d) = Inr cI" ..
  have "\<exists>c. encode_feature ?m ''PaperlessBilling'' (paperless_billing d) = Inr c"
    by (rule initialised_encodes [OF em fit _ _ pb_ok]) (simp_all add: ENCODER_FILES_def fm)
  then obtain cB where cB: "encode_feature ?m ''PaperlessBilling'' (paperless_billing d) = Inr cB" ..
  let ?r1 = "monthly_charges d / of_int (tenure d + 1)"
  let ?seg = "if tenure d \<le> 6 then 0 else if tenure d \<le> 12 then 1
              else if tenure d \<le> 24 then 2 else (3::int)"
  let ?new = "if tenure d \<le> 6 then 1 else (0::int)"
  let ?r2 = "if tenure d = 0 then 1
             else total_charges d / (monthly_charges d * of_int (tenure d))"
  let ?enc = "[''Contract'' \<mapsto> cC, ''PaymentMethod'' \<mapsto> cP,
               ''InternetService'' \<mapsto> cI, ''PaperlessBilling'' \<mapsto> cB]"
  let ?eng = "[''Ratio_MonthlyCharges_tenure'' \<mapsto> FloatV ?r1,
               ''tenure_segment_encoded'' \<mapsto> IntV ?seg,
               ''is_new_customer'' \<mapsto> IntV ?new,
               ''Ratio_TotalCharges_MonthlyCharges*tenure'' \<mapsto> FloatV ?r2]"
  let ?vec = "[?r1, of_int cC, of_int (tenure d), monthly_charges d, of_int ?seg,
               total_charges d, of_int ?new, of_int cP, of_int cI, of_int cB, ?r2]"
  let ?md = "\<lparr>input_data = d, encoded_features = ?enc, engineered_features = ?eng,
              feature_names = feature_order p, feature_vector_shape = length ?vec\<rparr>"
  have enc: "encode_categorical_features p d = Inr ?enc"
    unfolding encode_categorical_features_def
    by (rule encode_all_four [OF init_encoder_keys [OF em] cC cP cI cB])
  have eng: "compute_engineered_features d = Inr ?eng"
    using compute_engineered_features_ok [OF t_ok mc_ok tc_ok]
      compute_all_engineered_features_ok [OF t_ok mc_ok tc_ok] by simp
  have vec: "build_feature_vector p d ?enc ?eng = Inr ?vec"
    by (rule build_feature_vector_all [OF order])
  have pre: "preprocess p d = Inr (?vec, ?md)"
    by (simp only: preprocess_def vi enc eng vec sum.case)
  have r1: "calculate_ratio_monthly_charges_tenure (monthly_charges d) (tenure d) = Inr ?r1"
    using t_ok mc_ok by (simp add: calculate_ratio_monthly_charges_tenure_def)
  have seg: "calculate_tenure_segment_encoded (tenure d) = Inr ?seg"
    by (rule segment_of_tenure [OF t_ok])
  have new: "calculate_is_new_customer (tenure d) = Inr ?new"
    using t_ok by (simp add: calculate_is_new_customer_def)
  have r2: "calculate_ratio_total_monthly_tenure (total_charges d) (monthly_charges d)
              (tenure d) = Inr ?r2"
    using t_ok mc_ok tc_ok by (simp add: calculate_ratio_total_monthly_tenure_def)
  have names: "feature_names ?md = MODEL_FEATURES" and shape: "feature_vector_shape ?md = 11"
    by (simp_all add: order)
  show ?thesis
    apply (rule exI [of _ cC], rule exI [of _ cP], rule exI [of _ cI], rule exI [of _ cB])
    apply (rule exI [of _ ?r1], rule exI [of _ ?seg], rule exI [of _ ?new])
    apply (rule exI [of _ ?r2], rule exI [of _ ?md])
    apply (intro conjI)
              apply (rule cC)
             apply (rule cP)
            apply (rule cI)
           apply (rule cB)
          apply (rule r1)
         apply (rule seg)
        apply (rule new)
       apply (rule r2)
      apply (rule pre)
     apply (rule names)
    apply (rule shape)
    done
qed

lemma trained_preprocessor_init: "ChurnPreprocessor_init trained_files = Inr trained_preprocessor"
  by (simp add: ChurnPreprocessor_init_def trained_files_init trained_preprocessor_def)

lemma trained_preprocessor_fitted: "encoders_fitted (encoder_manager trained_preprocessor)"
  by (simp add: trained_preprocessor_def trained_manager_fitted)


lemma example_client_valid:
  "validate_input
     \<lparr>contract = ''Month-to-month'', tenure = 12, monthly_charges = 151 / 2,
      total_charges = 906, payment_method = ''Electronic check'',
      internet_service = ''Fiber optic'', paperless_billing = ''Yes''\<rparr>
   = Inr \<lparr>contract = ''Month-to-month'', tenure = 12, monthly_charges = 151 / 2,
      total_charges = 906, payment_method = ''Electronic check'',
      internet_service = ''Fiber optic'', paperless_billing = ''Yes''\<rparr>"
  by (simp add: validate_input_def ClientInput_errors_def CONTRACT_VALUES_def
        PAYMENT_METHOD_VALUES_def INTERNET_SERVICE_VALUES_def PAPERLESS_BILLING_VALUES_def
        MIN_TENURE_def MIN_MONTHLY_CHARGES_def MIN_TOTAL_CHARGES_def)



section \<open>Batches\<close>

lemma batch_loop_all_valid:
  "(\<And>d. d \<in> set ds \<Longrightarrow> \<exists>r. preprocess p d = Inr r) \<Longrightarrow>
     \<exists>fvs' mds'. preprocess_batch_loop p ds i fvs mds = Inr (fvs @ fvs', mds @ mds') \<and>
        length fvs' = length ds \<and> length mds' = length ds \<and>
        (\<forall>k<length ds. preprocess p (ds ! k) = Inr (fvs' ! k, mds' ! k))"
proof (induction ds arbitrary: i fvs mds)
  case Nil
  then show ?case by simp
next
  case (Cons d ds)
  from Cons.prems [of d] obtain fv md where d: "preprocess p d = Inr (fv, md)"
    by auto
  have "\<exists>fvs' mds'. preprocess_batch_loop p ds (Suc i) (fvs @ [fv]) (mds @ [md])
                       = Inr ((fvs @ [fv]) @ fvs', (mds @ [md]) @ mds') \<and>
        length fvs' = length ds \<and> length mds' = length ds \<and>
        (\<forall>k<length ds. preprocess p (ds ! k) = Inr (fvs' ! k, mds' ! k))"
    by (rule Cons.IH) (rule Cons.prems, simp)
  then obtain fvs' mds' where
    loop: "preprocess_batch_loop p ds (Suc i) (fvs @ [fv]) (mds @ [md])
             = Inr ((fvs @ [fv]) @ fvs', (mds @ [md]) @ mds')"
    and len: "length fvs' = length ds" "length mds' = length ds"
    and each: "\<forall>k<length ds. preprocess p (ds ! k) = Inr (fvs' ! k, mds' ! k)"
    by blast
  have "preprocess_batch_loop p (d # ds) i fvs mds = Inr (fvs @ fv # fvs', mds @ md # mds')"
    using d loop by simp
  moreover have "\<forall>k<length (d # ds).
      preprocess p ((d # ds) ! k) = Inr ((fv # fvs') ! k, (md # mds') ! k)"
    using d each by (simp add: nth_Cons split: nat.split)
  ultimately show ?case using len
    by (intro exI [of _ "fv # fvs'"] exI [of _ "md # mds'"]) simp
qed

lemma batch_loop_first_failure:
  "k < length ds \<Longrightarrow> preprocess p (ds ! k) = Inl e \<Longrightarrow>
   (\<And>j. j < k \<Longrightarrow> \<exists>r. preprocess p (ds ! j) = Inr r) \<Longrightarrow>
     preprocess_batch_loop p ds i fvs mds = Inl (BatchError (i + k) e)"
proof (induction ds arbitrary: k i fvs mds)
  case Nil
  then show ?case by simp
next
  case (Cons d ds)
  show ?case
  proof (cases k)
    case 0
    with Cons.prems(2) show ?thesis by simp
  next
    case (Suc k')
    from Cons.prems(3) [of 0] Suc obtain fv md where d: "preprocess p d = Inr (fv, md)"
      by auto
    have "preprocess_batch_loop p ds (Suc i) (fvs @ [fv]) (mds @ [md])
            = Inl (BatchError (Suc i + k') e)"
    proof (rule Cons.IH)
      show "k' < length ds" using Cons.prems(1) Suc by simp
      show "preprocess p (ds ! k') = Inl e" using Cons.prems(2) Suc by simp
      show "\<exists>r. preprocess p (ds ! j) = Inr r" if "j < k'" for j
        using Cons.prems(3) [of "Suc j"] that Suc by simp
    qed
    with d Suc show ?thesis by simp
  qed
qed

lemma first_failing_record:
  assumes "\<exists>d\<in>set ds. \<exists>e. preprocess p d = Inl e"
  shows "\<exists>k e. k < length ds \<and> preprocess p (ds ! k) = Inl e \<and>
               (\<forall>j<k. \<exists>r. preprocess p (ds ! j) = Inr r)"
proof -
  let ?P = "\<lambda>k. k < length ds \<and> (\<exists>e. preprocess p (ds ! k) = Inl e)"
  from assms have "\<exists>k. ?P k"
    by (metis in_set_conv_nth)
  then have least: "?P (LEAST k. ?P k)"
    by (rule LeastI_ex)
  then obtain e where k: "(LEAST k. ?P k) < length ds"
    and e: "preprocess p (ds ! (LEAST k. ?P k)) = Inl e"
    by blast
  have "\<exists>r. preprocess p (ds ! j) = Inr r" if "j < (LEAST k. ?P k)" for j
  proof -
    from that have "\<not> ?P j" by (rule not_less_Least)
    moreover from that k have "j < length ds" by simp
    ultimately have "\<forall>e. preprocess p (ds ! j) \<noteq> Inl e" by simp
    then show ?thesis by (cases "preprocess p (ds ! j)") auto
  qed
  with k e show ?thesis by blast
qed

lemma preprocess_returns:
  assumes "ChurnPreprocessor_init files = Inr p"
    and "encoders_fitted (encoder_manager p)"
    and "validate_input d = Inr vi"
  shows "\<exists>fv md. preprocess p d = Inr (fv, md)"
  using preprocess_validated [OF assms] by (elim exE conjE) (rule exI, rule exI)

lemma new_client_valid:
  "validate_input
     \<lparr>contract = ''Month-to-month'', tenure = 0, monthly_charges = 50,
      total_charges = 0, payment_method = ''Electronic check'',
      internet_service = ''Fiber optic'', paperless_billing = ''Yes''\<rparr>
   = Inr \<lparr>contract = ''Month-to-month'', tenure = 0, monthly_charges = 50,
      total_charges = 0, payment_method = ''Electronic check'',
      internet_service = ''Fiber optic'', paperless_billing = ''Yes''\<rparr>"
  by (simp add: validate_input_def ClientInput_errors_def CONTRACT_VALUES_def
        PAYMENT_METHOD_VALUES_def INTERNET_SERVICE_VALUES_def PAPERLESS_BILLING_VALUES_def
        MIN_TENURE_def MIN_MONTHLY_CHARGES_def MIN_TOTAL_CHARGES_def)

lemma negative_tenure_rejected:
  "preprocess p
     \<lparr>contract = ''Month-to-month'', tenure = - 1, monthly_charges = 50,
      total_charges = 0, payment_method = ''Electronic check'',
      internet_service = ''Fiber optic'', paperless_billing = ''Yes''\<rparr>
   = Inl (ValidationError [''tenure''])"
  by (simp add: preprocess_def validate_input_def ClientInput_errors_def CONTRACT_VALUES_def
        PAYMENT_METHOD_VALUES_def INTERNET_SERVICE_VALUES_def PAPERLESS_BILLING_VALUES_def
        MIN_TENURE_def MIN_MONTHLY_CHARGES_def MIN_TOTAL_CHARGES_def)

text \<open>
  C6. \<^verbatim>\<open>preprocess_batch\<close> runs \<^verbatim>\<open>preprocess\<close> on each record in input order. When every
  record is valid it returns as many vectors as records, the \<open>k\<close>-th being what
  \<^verbatim>\<open>preprocess\<close> returns on the \<open>k\<close>-th record alone. When some record fails, the whole
  batch fails, with no partial result, and the error carries the index of the failing
  record at which the loop stopped (the first one) and that record's error.
\<close>

theorem preprocess_batch_all_or_nothing:
  "((\<forall>d\<in>set ds. \<exists>r. preprocess p d = Inr r) \<longrightarrow>
      (\<exists>fvs mds. preprocess_batch p ds = Inr (fvs, mds) \<and>
         length fvs = length ds \<and> length mds = length ds \<and>
         (\<forall>k<length ds. preprocess p (ds ! k) = Inr (fvs ! k, mds ! k)))) \<and>
   ((\<exists>d\<in>set ds. \<exists>e. preprocess p d = Inl e) \<longrightarrow>
      (\<exists>k e. k < length ds \<and> preprocess p (ds ! k) = Inl e \<and>
         (\<forall>j<k. \<exists>r. preprocess p (ds ! j) = Inr r) \<and>
         preprocess_batch p ds = Inl (BatchError k e)))"
proof (intro conjI impI)
  assume "\<forall>d\<in>set ds. \<exists>r. preprocess p d = Inr r"
  then have "\<exists>fvs' mds'. preprocess_batch_loop p ds 0 [] [] = Inr ([] @ fvs', [] @ mds') \<and>
        length fvs' = length ds \<and> length mds' = length ds \<and>
        (\<forall>k<length ds. preprocess p (ds ! k) = Inr (fvs' ! k, mds' ! k))"
    by (intro batch_loop_all_valid) simp
  then show "\<exists>fvs mds. preprocess_batch p ds = Inr (fvs, mds) \<and>
         length fvs = length ds \<and> length mds = length ds \<and>
         (\<forall>k<length ds. preprocess p (ds ! k) = Inr (fvs ! k, mds ! k))"
    by (simp add: preprocess_batch_def)
next
  assume "\<exists>d\<in>set ds. \<exists>e. preprocess p d = Inl e"
  from first_failing_record [OF this] obtain k e where
    k: "k < length ds" and e: "preprocess p (ds ! k) = Inl e"
    and before: "\<forall>j<k. \<exists>r. preprocess p (ds ! j) = Inr r"
    by blast
  have "preprocess_batch_loop p ds 0 [] [] = Inl (BatchError (0 + k) e)"
    by (rule batch_loop_first_failure [OF k e]) (use before in simp)
  then have "preprocess_batch p ds = Inl (BatchError k e)"
    by (simp add: preprocess_batch_def)
  with k e before show "\<exists>k e. k < length ds \<and> preprocess p (ds ! k) = Inl e \<and>
         (\<forall>j<k. \<exists>r. preprocess p (ds ! j) = Inr r) \<and>
         preprocess_batch p ds = Inl (BatchError k e)"
    by blast
qed

theorem preprocess_batch_all_or_nothing_witness:
  "(\<exists>fvs mds.
      preprocess_batch trained_preprocessor
        [\<lparr>contract = ''Month-to-month'', tenure = 12, monthly_charges = 151 / 2,
          total_charges = 906, payment_method = ''Electronic check'',
          internet_service = ''Fiber optic'', paperless_billing = ''Yes''\<rparr>,
         \<lparr>contract = ''Month-to-month'', tenure = 0, monthly_charges = 50,
          total_charges = 0, payment_method = ''Electronic check'',
          internet_service = ''Fiber optic'', paperless_billing = ''Yes''\<rparr>]
        = Inr (fvs, mds) \<and> length fvs = 2 \<and> length mds = 2) \<and>
   preprocess_batch trained_preprocessor
     [\<lparr>contract = ''Month-to-month'', tenure = 12, monthly_charges = 151 / 2,
       total_charges = 906, payment_method = ''Electronic check'',
       internet_service = ''Fiber optic'', paperless_billing = ''Yes''\<rparr>,
      \<lparr>contract = ''Month-to-month'', tenure = - 1, monthly_charges = 50,
       total_charges = 0, payment_method = ''Electronic check'',
       internet_service = ''Fiber optic'', paperless_billing = ''Yes''\<rparr>,
      \<lparr>contract = ''Month-to-month'', tenure = 0, monthly_charges = 50,
       total_charges = 0, payment_method = ''Electronic check'',
       internet_service = ''Fiber optic'', paperless_billing = ''Yes''\<rparr>]
     = Inl (BatchError 1 (ValidationError [''tenure'']))"
proof -
  let ?p = trained_preprocessor
  let ?d1 = "\<lparr>contract = ''Month-to-month'', tenure = 12, monthly_charges = 151 / 2,
          total_charges = 906, payment_method = ''Electronic check'',
          internet_service = ''Fiber optic'', paperless_billing = ''Yes''\<rparr>"
  let ?d2 = "\<lparr>contract = ''Month-to-month'', tenure = 0, monthly_charges = 50,
          total_charges = 0, payment_method = ''Electronic check'',
          internet_service = ''Fiber optic'', paperless_billing = ''Yes''\<rparr>"
  let ?bad = "\<lparr>contract = ''Month-to-month'', tenure = - 1, monthly_charges = 50,
       total_charges = 0, payment_method = ''Electronic check'',
       internet_service = ''Fiber optic'', paperless_billing = ''Yes''\<rparr>"
  have r1: "\<exists>fv md. preprocess ?p ?d1 = Inr (fv, md)"
    by (rule preprocess_returns
          [OF trained_preprocessor_init trained_preprocessor_fitted example_client_valid])
  have r2: "\<exists>fv md. preprocess ?p ?d2 = Inr (fv, md)"
    by (rule preprocess_returns
          [OF trained_preprocessor_init trained_preprocessor_fitted new_client_valid])
  have bad: "preprocess ?p ?bad = Inl (ValidationError [''tenure''])"
    by (rule negative_tenure_rejected)
  have all: "\<forall>d\<in>set [?d1, ?d2]. \<exists>r. preprocess ?p d = Inr r"
    using r1 r2 by (elim exE) simp
  from preprocess_batch_all_or_nothing [of "[?d1, ?d2]" ?p, THEN conjunct1, THEN mp, OF all]
  have ok: "\<exists>fvs mds. preprocess_batch ?p [?d1, ?d2] = Inr (fvs, mds) \<and>
              length fvs = 2 \<and> length mds = 2"
    by (elim exE conjE) simp
  have some: "\<exists>d\<in>set [?d1, ?bad, ?d2]. \<exists>e. preprocess ?p d = Inl e"
    using bad by simp
  from preprocess_batch_all_or_nothing
         [of "[?d1, ?bad, ?d2]" ?p, THEN conjunct2, THEN mp, OF some]
  obtain k e where k: "k < length [?d1, ?bad, ?d2]"
    and e: "preprocess ?p ([?d1, ?bad, ?d2] ! k) = Inl e"
    and before: "\<forall>j<k. \<exists>r. preprocess ?p ([?d1, ?bad, ?d2] ! j) = Inr r"
    and fail: "preprocess_batch ?p [?d1, ?bad, ?d2] = Inl (BatchError k e)"
    by (elim exE conjE) (rule that)
  from r1 obtain fv md where d1: "preprocess ?p ?d1 = Inr (fv, md)"
    by (elim exE) (rule that)
  have "preprocess_batch ?p [?d1, ?bad, ?d2] = Inl (BatchError 1 (ValidationError [''tenure'']))"
    by (simp add: preprocess_batch_def d1 bad)
  with ok show ?thesis by simp
qed

end
